theory Spec2Isabelle
  imports Complex_Main
begin

section \<open>Time values of the JavaScript \<open>Date\<close> object\<close>

text \<open>
  The dashboard (\<open>Dashboard.tsx\<close>, \<open>dashboard.tsx\<close>) and the timesheet calendar compute
  with JavaScript \<open>Date\<close> objects and with the \<open>date-fns\<close> helpers \<open>addDays\<close>,
  \<open>isWeekend\<close>, \<open>eachDayOfInterval\<close> and \<open>format\<close>. A \<open>Date\<close> holds a time value: a
  number of milliseconds since 1970-01-01T00:00:00Z, or \<open>NaN\<close> (an Invalid Date).
  The functions of this section follow the definitions of ECMA-262 (Day, DayFromYear,
  YearFromTime, MonthFromTime, DateFromTime, WeekDay, MakeDay, MakeDate, TimeClip).
  The local time zone is taken to be UTC, so that local time and time value coincide.

  A value of type \<open>jsdate\<close> is \<open>Some t\<close> for the time value \<open>t\<close> and \<open>None\<close> for an
  Invalid Date; a value of type \<open>jsnum\<close> is an integral Number or \<open>None\<close> for \<open>NaN\<close>.
\<close>

type_synonym jsdate = "int option"
type_synonym jsnum = "int option"

definition msPerDay :: int where
  "msPerDay = 86400000"

definition maxTime :: int where
  "maxTime = 8640000000000000"

definition Day :: "int \<Rightarrow> int" where
  "Day t = t div msPerDay"

definition TimeWithinDay :: "int \<Rightarrow> int" where
  "TimeWithinDay t = t mod msPerDay"

definition DaysInYear :: "int \<Rightarrow> int" where
  "DaysInYear y =
     (if y mod 4 \<noteq> 0 then 365
      else if y mod 100 \<noteq> 0 then 366
      else if y mod 400 \<noteq> 0 then 365
      else 366)"

definition DayFromYear :: "int \<Rightarrow> int" where
  "DayFromYear y =
     365 * (y - 1970) + (y - 1969) div 4 - (y - 1901) div 100 + (y - 1601) div 400"

lemma div_succ:
  fixes a n :: int
  assumes n: "0 < n"
  shows "(a + 1) div n = a div n + (if (a + 1) mod n = 0 then 1 else 0)"
proof (cases "a mod n = n - 1")
  case True
  have "n * (a div n + 1) = n * (a div n) + n" by (simp add: algebra_simps)
  with True mult_div_mod_eq[of n a] have a: "a + 1 = n * (a div n + 1) + 0"
    by linarith
  have "(a + 1) div n = a div n + 1"
    by (rule int_div_pos_eq[OF a]) (use n in simp_all)
  moreover have "(a + 1) mod n = 0"
    by (rule int_mod_pos_eq[OF a]) (use n in simp_all)
  ultimately show ?thesis by simp
next
  case False
  have bnd: "0 \<le> a mod n" "a mod n < n" using n by simp_all
  have a: "a + 1 = n * (a div n) + (a mod n + 1)"
    using mult_div_mod_eq[of n a] by simp
  have r: "0 \<le> a mod n + 1" "a mod n + 1 < n" using bnd False by linarith+
  have "(a + 1) div n = a div n" by (rule int_div_pos_eq[OF a r])
  moreover have "(a + 1) mod n = a mod n + 1" by (rule int_mod_pos_eq[OF a r])
  ultimately show ?thesis using bnd by simp
qed

lemma mod_shift: "(n::int) dvd k \<Longrightarrow> ((y - k) mod n = 0) = (y mod n = 0)"
  by (simp add: mod_eq_0_iff_dvd dvd_diff_left_iff)

lemma DayFromYear_Suc: "DayFromYear (y + 1) = DayFromYear y + DaysInYear y"
proof -
  have a: "(y + 1 - 1969) div 4 = (y - 1969) div 4 + (if y mod 4 = 0 then 1 else 0)"
    using div_succ[of 4 "y - 1969"] mod_shift[of 4 1968 y] by (simp add: algebra_simps)
  have b: "(y + 1 - 1901) div 100 = (y - 1901) div 100 + (if y mod 100 = 0 then 1 else 0)"
    using div_succ[of 100 "y - 1901"] mod_shift[of 100 1900 y] by (simp add: algebra_simps)
  have c: "(y + 1 - 1601) div 400 = (y - 1601) div 400 + (if y mod 400 = 0 then 1 else 0)"
    using div_succ[of 400 "y - 1601"] mod_shift[of 400 1600 y] by (simp add: algebra_simps)
  have d1: "y mod 100 = 0 \<Longrightarrow> y mod 4 = 0"
    using dvd_trans[of 4 100 y] by (simp add: mod_eq_0_iff_dvd)
  have d2: "y mod 400 = 0 \<Longrightarrow> y mod 100 = 0"
    using dvd_trans[of 100 400 y] by (simp add: mod_eq_0_iff_dvd)
  show ?thesis
    unfolding DayFromYear_def DaysInYear_def a b c
    using d1 d2 by (simp add: algebra_simps)
qed

lemma DaysInYear_cases: "DaysInYear y = 365 \<or> DaysInYear y = 366"
  by (simp add: DaysInYear_def)

lemma DayFromYear_less: "DayFromYear y < DayFromYear (y + 1)"
  using DaysInYear_cases[of y] by (auto simp: DayFromYear_Suc)

text \<open>
  ECMA-262 defines \<open>YearFromTime(t)\<close> as the largest year \<open>y\<close> with
  \<open>TimeFromYear(y) \<le> t\<close>. \<open>YearSearch\<close> walks up to it from a year that starts on or
  before the day; \<open>YearFromTime\<close> begins the walk at an estimate that is never too late.
\<close>

function YearSearch :: "int \<Rightarrow> int \<Rightarrow> int" where
  "YearSearch y d = (if DayFromYear (y + 1) \<le> d then YearSearch (y + 1) d else y)"
  by pat_completeness auto
termination
proof (relation "measure (\<lambda>(y, d). nat (d - DayFromYear (y + 1) + 1))")
  show "wf (measure (\<lambda>(y, d). nat (d - DayFromYear (y + 1) + 1)))" by simp
next
  fix y d :: int
  assume le: "DayFromYear (y + 1) \<le> d"
  from le DayFromYear_less[of "y + 1"]
  show "((y + 1, d), (y, d)) \<in> measure (\<lambda>(y, d). nat (d - DayFromYear (y + 1) + 1))"
    by simp
qed

declare YearSearch.simps [simp del]

definition YearFromDay :: "int \<Rightarrow> int" where
  "YearFromDay d = YearSearch (1970 + (if 0 \<le> d then d div 366 else d div 365)) d"

definition YearFromTime :: "int \<Rightarrow> int" where
  "YearFromTime t = YearFromDay (Day t)"

definition InLeapYear :: "int \<Rightarrow> int" where
  "InLeapYear t = (if DaysInYear (YearFromTime t) = 366 then 1 else 0)"

definition DayWithinYear :: "int \<Rightarrow> int" where
  "DayWithinYear t = Day t - DayFromYear (YearFromTime t)"

definition MonthFromTime :: "int \<Rightarrow> int" where
  "MonthFromTime t =
     (let d = DayWithinYear t; l = InLeapYear t in
      if d < 31 then 0
      else if d < 59 + l then 1
      else if d < 90 + l then 2
      else if d < 120 + l then 3
      else if d < 151 + l then 4
      else if d < 181 + l then 5
      else if d < 212 + l then 6
      else if d < 243 + l then 7
      else if d < 273 + l then 8
      else if d < 304 + l then 9
      else if d < 334 + l then 10
      else 11)"

definition DateFromTime :: "int \<Rightarrow> int" where
  "DateFromTime t =
     (let d = DayWithinYear t; l = InLeapYear t; m = MonthFromTime t in
      if m = 0 then d + 1
      else if m = 1 then d - 30
      else if m = 2 then d - 58 - l
      else if m = 3 then d - 89 - l
      else if m = 4 then d - 119 - l
      else if m = 5 then d - 150 - l
      else if m = 6 then d - 180 - l
      else if m = 7 then d - 211 - l
      else if m = 8 then d - 242 - l
      else if m = 9 then d - 272 - l
      else if m = 10 then d - 303 - l
      else d - 333 - l)"

definition WeekDay :: "int \<Rightarrow> int" where
  "WeekDay t = (Day t + 4) mod 7"

text \<open>
  \<open>MakeDay(year, month, date)\<close>: the month is first carried into the year
  (\<open>ym = year + floor(month / 12)\<close>, \<open>mn = month mod 12\<close>); the result is the day number
  of the first of that month plus \<open>date - 1\<close>. \<open>DayOfMonthStart mn l\<close> is the number of
  days of the year before month \<open>mn\<close> (\<open>l = 1\<close> in a leap year).
\<close>

definition DayOfMonthStart :: "int \<Rightarrow> int \<Rightarrow> int" where
  "DayOfMonthStart mn l =
     (if mn = 0 then 0
      else if mn = 1 then 31
      else if mn = 2 then 59 + l
      else if mn = 3 then 90 + l
      else if mn = 4 then 120 + l
      else if mn = 5 then 151 + l
      else if mn = 6 then 181 + l
      else if mn = 7 then 212 + l
      else if mn = 8 then 243 + l
      else if mn = 9 then 273 + l
      else if mn = 10 then 304 + l
      else 334 + l)"

definition MakeDay :: "int \<Rightarrow> int \<Rightarrow> int \<Rightarrow> int" where
  "MakeDay year month dt =
     (let ym = year + month div 12;
          mn = month mod 12;
          l = (if DaysInYear ym = 366 then 1 else 0)
      in DayFromYear ym + DayOfMonthStart mn l + dt - 1)"

definition MakeDate :: "int \<Rightarrow> int \<Rightarrow> int" where
  "MakeDate day time = day * msPerDay + time"

definition TimeClip :: "int \<Rightarrow> jsdate" where
  "TimeClip t = (if \<bar>t\<bar> > maxTime then None else Some t)"

subsection \<open>Facts about the calendar functions\<close>

lemma DayFromYear_mono: "y \<le> y' \<Longrightarrow> DayFromYear y \<le> DayFromYear y'"
proof (induction y' rule: int_ge_induct)
  case base
  show ?case by simp
next
  case (step i)
  with DayFromYear_less[of i] show ?case by simp
qed

lemma DayFromYear_upper: "1970 \<le> y \<Longrightarrow> DayFromYear y \<le> 366 * (y - 1970)"
proof (induction y rule: int_ge_induct)
  case base
  show ?case by (simp add: DayFromYear_def)
next
  case (step i)
  with DaysInYear_cases[of i] show ?case by (auto simp: DayFromYear_Suc)
qed

lemma DayFromYear_lower: "y \<le> 1970 \<Longrightarrow> DayFromYear y \<le> 365 * (y - 1970)"
proof (induction y rule: int_le_induct)
  case base
  show ?case by (simp add: DayFromYear_def)
next
  case (step i)
  have "DayFromYear (i - 1 + 1) = DayFromYear (i - 1) + DaysInYear (i - 1)"
    by (rule DayFromYear_Suc)
  with step DaysInYear_cases[of "i - 1"] show ?case by auto
qed

lemma YearSearch_spec:
  "DayFromYear y \<le> d \<Longrightarrow>
   DayFromYear (YearSearch y d) \<le> d \<and> d < DayFromYear (YearSearch y d + 1)"
proof (induction y d rule: YearSearch.induct)
  case (1 y d)
  show ?case
  proof (cases "DayFromYear (y + 1) \<le> d")
    case True
    with 1 show ?thesis by (simp add: YearSearch.simps[of y d])
  next
    case False
    with 1 show ?thesis by (simp add: YearSearch.simps[of y d])
  qed
qed

lemma YearFromDay_estimate:
  "DayFromYear (1970 + (if 0 \<le> d then d div 366 else d div 365)) \<le> d"
proof (cases "0 \<le> d")
  case True
  have "0 \<le> d div 366" using True by simp
  then have "DayFromYear (1970 + d div 366) \<le> 366 * (d div 366)"
    using DayFromYear_upper[of "1970 + d div 366"] by simp
  moreover have "366 * (d div 366) \<le> d"
    using mult_div_mod_eq[of 366 d] pos_mod_sign[of 366 d] by linarith
  ultimately show ?thesis using True by simp
next
  case False
  have le: "365 * (d div 365) \<le> d"
    using mult_div_mod_eq[of 365 d] pos_mod_sign[of 365 d] by linarith
  with False have "d div 365 \<le> 0" by linarith
  then have "DayFromYear (1970 + d div 365) \<le> 365 * (d div 365)"
    using DayFromYear_lower[of "1970 + d div 365"] by simp
  with le show ?thesis using False by simp
qed

lemma YearFromDay_bounds:
  "DayFromYear (YearFromDay d) \<le> d" "d < DayFromYear (YearFromDay d + 1)"
  using YearSearch_spec[OF YearFromDay_estimate[of d]] by (simp_all add: YearFromDay_def)

lemma YearFromDay_unique:
  assumes "DayFromYear y \<le> d" "d < DayFromYear (y + 1)"
  shows "YearFromDay d = y"
proof (rule ccontr)
  assume ne: "YearFromDay d \<noteq> y"
  let ?z = "YearFromDay d"
  show False
  proof (cases "?z < y")
    case True
    then have "DayFromYear (?z + 1) \<le> DayFromYear y" by (intro DayFromYear_mono) simp
    with assms YearFromDay_bounds[of d] show False by linarith
  next
    case False
    with ne have "DayFromYear (y + 1) \<le> DayFromYear ?z" by (intro DayFromYear_mono) simp
    with assms YearFromDay_bounds[of d] show False by linarith
  qed
qed

lemma DayWithinYear_bounds:
  "0 \<le> DayWithinYear t" "DayWithinYear t < DaysInYear (YearFromTime t)"
  using YearFromDay_bounds[of "Day t"] DayFromYear_Suc[of "YearFromTime t"]
  by (simp_all add: DayWithinYear_def YearFromTime_def)

lemma MonthFromTime_range: "0 \<le> MonthFromTime t" "MonthFromTime t \<le> 11"
  by (simp_all add: MonthFromTime_def Let_def)

lemma Day_MakeDate: "0 \<le> tod \<Longrightarrow> tod < msPerDay \<Longrightarrow> Day (MakeDate d tod) = d"
  unfolding Day_def MakeDate_def
  by (rule int_div_pos_eq[of _ _ _ tod]) (simp_all add: msPerDay_def)

lemma TimeWithinDay_MakeDate:
  "0 \<le> tod \<Longrightarrow> tod < msPerDay \<Longrightarrow> TimeWithinDay (MakeDate d tod) = tod"
  unfolding TimeWithinDay_def MakeDate_def
  by (rule int_mod_pos_eq[of _ _ d]) (simp_all add: msPerDay_def)

lemma MakeDate_Day: "MakeDate (Day t) (TimeWithinDay t) = t"
  by (simp add: MakeDate_def Day_def TimeWithinDay_def)

lemma TimeWithinDay_range: "0 \<le> TimeWithinDay t" "TimeWithinDay t < msPerDay"
  by (simp_all add: TimeWithinDay_def msPerDay_def)

lemma month_cases:
  "0 \<le> (m::int) \<Longrightarrow> m \<le> 11 \<Longrightarrow>
   m = 0 \<or> m = 1 \<or> m = 2 \<or> m = 3 \<or> m = 4 \<or> m = 5 \<or> m = 6 \<or> m = 7 \<or> m = 8 \<or> m = 9
   \<or> m = 10 \<or> m = 11"
  by arith

lemma InLeapYear_cases: "InLeapYear t = 0 \<or> InLeapYear t = 1"
  by (simp add: InLeapYear_def)

lemma DayWithinYear_upper: "DayWithinYear t < 365 + InLeapYear t"
  using DayWithinYear_bounds(2)[of t] DaysInYear_cases[of "YearFromTime t"]
  by (auto simp: InLeapYear_def)

lemma DayOfMonthStart_DateFromTime:
  "DayOfMonthStart (MonthFromTime t) (InLeapYear t) + DateFromTime t - 1 = DayWithinYear t"
  by (simp add: DayOfMonthStart_def DateFromTime_def MonthFromTime_def Let_def)

lemma MakeDay_decompose:
  "MakeDay (YearFromTime t) (MonthFromTime t) (DateFromTime t) = Day t"
proof -
  have "MonthFromTime t div 12 = 0" "MonthFromTime t mod 12 = MonthFromTime t"
    using MonthFromTime_range[of t] by simp_all
  then show ?thesis
    using DayOfMonthStart_DateFromTime[of t]
    by (simp add: MakeDay_def Let_def InLeapYear_def DayWithinYear_def)
qed

lemma MakeDay_add: "MakeDay y m (dt + k) = MakeDay y m dt + k"
  by (simp add: MakeDay_def Let_def)

lemma month_table_cases:
  fixes d l :: int
  obtains
    (m0) "d < 31"
  | (m1) "31 \<le> d \<and> d < 59 + l"
  | (m2) "59 + l \<le> d \<and> d < 90 + l"
  | (m3) "90 + l \<le> d \<and> d < 120 + l"
  | (m4) "120 + l \<le> d \<and> d < 151 + l"
  | (m5) "151 + l \<le> d \<and> d < 181 + l"
  | (m6) "181 + l \<le> d \<and> d < 212 + l"
  | (m7) "212 + l \<le> d \<and> d < 243 + l"
  | (m8) "243 + l \<le> d \<and> d < 273 + l"
  | (m9) "273 + l \<le> d \<and> d < 304 + l"
  | (m10) "304 + l \<le> d \<and> d < 334 + l"
  | (m11) "334 + l \<le> d"
  by linarith

lemma DateFromTime_range: "1 \<le> DateFromTime t" "DateFromTime t \<le> 31"
proof -
  define d where "d = DayWithinYear t"
  define l where "l = InLeapYear t"
  have b: "0 \<le> d" "d < 365 + l" "0 \<le> l" "l \<le> 1"
    using DayWithinYear_bounds(1)[of t] DayWithinYear_upper[of t] InLeapYear_cases[of t]
    by (auto simp: d_def l_def)
  have M: "MonthFromTime t =
     (if d < 31 then 0 else if d < 59 + l then 1 else if d < 90 + l then 2
      else if d < 120 + l then 3 else if d < 151 + l then 4 else if d < 181 + l then 5
      else if d < 212 + l then 6 else if d < 243 + l then 7 else if d < 273 + l then 8
      else if d < 304 + l then 9 else if d < 334 + l then 10 else 11)"
    by (simp add: MonthFromTime_def Let_def d_def l_def)
  have D: "DateFromTime t = d + 1 - DayOfMonthStart (MonthFromTime t) l"
    using DayOfMonthStart_DateFromTime[of t] by (simp add: d_def l_def)
  have "1 \<le> DateFromTime t \<and> DateFromTime t \<le> 31"
  proof (cases rule: month_table_cases[where d=d and l=l])
    case m0
    then have "MonthFromTime t = 0" using b by (simp add: M)
    with m0 b show ?thesis by (simp add: D DayOfMonthStart_def)
  next
    case m1
    then have "MonthFromTime t = 1" using b by (simp add: M)
    with m1 b show ?thesis by (simp add: D DayOfMonthStart_def)
  next
    case m2
    then have "MonthFromTime t = 2" using b by (simp add: M)
    with m2 b show ?thesis by (simp add: D DayOfMonthStart_def)
  next
    case m3
    then have "MonthFromTime t = 3" using b by (simp add: M)
    with m3 b show ?thesis by (simp add: D DayOfMonthStart_def)
  next
    case m4
    then have "MonthFromTime t = 4" using b by (simp add: M)
    with m4 b show ?thesis by (simp add: D DayOfMonthStart_def)
  next
    case m5
    then have "MonthFromTime t = 5" using b by (simp add: M)
    with m5 b show ?thesis by (simp add: D DayOfMonthStart_def)
  next
    case m6
    then have "MonthFromTime t = 6" using b by (simp add: M)
    with m6 b show ?thesis by (simp add: D DayOfMonthStart_def)
  next
    case m7
    then have "MonthFromTime t = 7" using b by (simp add: M)
    with m7 b show ?thesis by (simp add: D DayOfMonthStart_def)
  next
    case m8
    then have "MonthFromTime t = 8" using b by (simp add: M)
    with m8 b show ?thesis by (simp add: D DayOfMonthStart_def)
  next
    case m9
    then have "MonthFromTime t = 9" using b by (simp add: M)
    with m9 b show ?thesis by (simp add: D DayOfMonthStart_def)
  next
    case m10
    then have "MonthFromTime t = 10" using b by (simp add: M)
    with m10 b show ?thesis by (simp add: D DayOfMonthStart_def)
  next
    case m11
    then have "MonthFromTime t = 11" using b by (simp add: M)
    with m11 b show ?thesis by (simp add: D DayOfMonthStart_def)
  qed
  then show "1 \<le> DateFromTime t" "DateFromTime t \<le> 31" by simp_all
qed

lemma DayOfMonthStart_bounds:
  assumes "0 \<le> mn" "mn \<le> 11" "l = 0 \<or> l = 1"
  shows "0 \<le> DayOfMonthStart mn l" "DayOfMonthStart mn l \<le> 334 + l"
  using assms by (auto simp: DayOfMonthStart_def)

lemma civil_roundtrip:
  assumes dt: "1 \<le> dt" "dt \<le> 28"
    and day: "Day t = MakeDay year month dt"
  shows "YearFromTime t = year + month div 12"
    and "MonthFromTime t = month mod 12"
    and "DateFromTime t = dt"
proof -
  define ym where "ym = year + month div 12"
  define mn where "mn = month mod 12"
  define l :: int where "l = (if DaysInYear ym = 366 then 1 else 0)"
  have mn: "0 \<le> mn" "mn \<le> 11" by (simp_all add: mn_def) 
  have l: "l = 0 \<or> l = 1" by (simp add: l_def)
  have D: "Day t = DayFromYear ym + DayOfMonthStart mn l + dt - 1"
    using day by (simp add: MakeDay_def Let_def ym_def mn_def l_def)
  have len: "DaysInYear ym = 365 + l"
    using DaysInYear_cases[of ym] by (auto simp: l_def)
  have lo: "DayFromYear ym \<le> Day t"
    using D dt DayOfMonthStart_bounds(1)[OF mn l] by linarith
  have hi: "Day t < DayFromYear (ym + 1)"
    using D dt DayOfMonthStart_bounds(2)[OF mn l] len by (simp add: DayFromYear_Suc)
  have Y: "YearFromTime t = ym"
    unfolding YearFromTime_def by (rule YearFromDay_unique[OF lo hi])
  then show "YearFromTime t = year + month div 12" by (simp add: ym_def)
  have L: "InLeapYear t = l" by (simp add: InLeapYear_def Y l_def)
  have W: "DayWithinYear t = DayOfMonthStart mn l + dt - 1"
    using D by (simp add: DayWithinYear_def Y)
  have M: "MonthFromTime t = mn"
    using month_cases[OF mn] dt l
    apply (elim disjE)
    apply (simp_all add: MonthFromTime_def Let_def W L DayOfMonthStart_def)
    done
  then show "MonthFromTime t = month mod 12" by (simp add: mn_def)
  show "DateFromTime t = dt"
    using month_cases[OF mn]
    apply (elim disjE)
    apply (simp_all add: DateFromTime_def Let_def M W L DayOfMonthStart_def)
    done
qed

subsection \<open>Date methods and the \<open>date-fns\<close> helpers\<close>

text \<open>
  The getters return \<open>NaN\<close> on an Invalid Date. \<open>new Date(year, month, date)\<close> is
  \<open>newDate\<close>: a year from 0 to 99 stands for \<open>1900 + year\<close>, the month may lie outside
  0..11 (\<open>MakeDay\<close> carries it into the year), and the result is clipped to the range of
  time values. \<open>setDate\<close> replaces the day of the month and keeps the time of day.
  The comparisons \<open><=\<close> and \<open>>=\<close> of two \<open>Date\<close> objects compare their time values and are
  false when either is \<open>NaN\<close>.
\<close>

definition getFullYear :: "jsdate \<Rightarrow> jsnum" where
  "getFullYear d = map_option YearFromTime d"

definition getMonth :: "jsdate \<Rightarrow> jsnum" where
  "getMonth d = map_option MonthFromTime d"

definition getDate :: "jsdate \<Rightarrow> jsnum" where
  "getDate d = map_option DateFromTime d"

definition getDay :: "jsdate \<Rightarrow> jsnum" where
  "getDay d = map_option WeekDay d"

definition num_plus :: "jsnum \<Rightarrow> int \<Rightarrow> jsnum" where
  "num_plus x k = map_option (\<lambda>v. v + k) x"

definition newDate :: "jsnum \<Rightarrow> jsnum \<Rightarrow> jsnum \<Rightarrow> jsdate" where
  "newDate year month dt =
     (case (year, month, dt) of
        (Some y, Some m, Some d) \<Rightarrow>
          TimeClip (MakeDate (MakeDay (if 0 \<le> y \<and> y \<le> 99 then 1900 + y else y) m d) 0)
      | _ \<Rightarrow> None)"

definition setDate :: "jsdate \<Rightarrow> jsnum \<Rightarrow> jsdate" where
  "setDate d dt =
     (case (d, dt) of
        (Some t, Some n) \<Rightarrow>
          TimeClip (MakeDate (MakeDay (YearFromTime t) (MonthFromTime t) n) (TimeWithinDay t))
      | _ \<Rightarrow> None)"

definition date_le :: "jsdate \<Rightarrow> jsdate \<Rightarrow> bool" where
  "date_le a b = (case (a, b) of (Some x, Some y) \<Rightarrow> x \<le> y | _ \<Rightarrow> False)"

definition date_ge :: "jsdate \<Rightarrow> jsdate \<Rightarrow> bool" where
  "date_ge a b = (case (a, b) of (Some x, Some y) \<Rightarrow> x \<ge> y | _ \<Rightarrow> False)"

text \<open>
  \<open>isWeekend(date)\<close> of \<open>date-fns\<close> tests \<open>getDay()\<close> for 0 (Sunday) or 6 (Saturday).
  \<open>addDays(date, amount)\<close> returns the argument's time value for \<open>amount = 0\<close> and
  otherwise that of \<open>setDate(getDate() + amount)\<close> on a copy.
\<close>

definition isWeekend :: "jsdate \<Rightarrow> bool" where
  "isWeekend d = (let day = getDay d in day = Some 0 \<or> day = Some 6)"

definition addDays :: "jsdate \<Rightarrow> int \<Rightarrow> jsdate" where
  "addDays d amount = (if amount = 0 then d else setDate d (num_plus (getDate d) amount))"

text \<open>
  The two working-day counters: \<open>calculateWorkingDays\<close> of \<open>Dashboard.tsx\<close> and
  \<open>getWorkingDaysInPeriod\<close> of \<open>dashboard.tsx\<close>. Each \<open>while\<close> loop is a partial
  function on the loop variables \<open>count\<close> and \<open>current\<close>; the value \<open>None\<close> would stand
  for a loop that never leaves, and that it does not occur is proved below.
\<close>

partial_function (option) calculateWorkingDays_loop ::
  "nat \<Rightarrow> jsdate \<Rightarrow> jsdate \<Rightarrow> nat option" where
  "calculateWorkingDays_loop count current endDate =
     (if date_le current endDate
      then calculateWorkingDays_loop (if \<not> isWeekend current then count + 1 else count)
             (addDays current 1) endDate
      else Some count)"

declare calculateWorkingDays_loop.simps [code]

definition calculateWorkingDays :: "jsdate \<Rightarrow> jsdate \<Rightarrow> nat option" where
  "calculateWorkingDays startDate endDate = calculateWorkingDays_loop 0 startDate endDate"

partial_function (option) getWorkingDaysInPeriod_loop ::
  "nat \<Rightarrow> jsdate \<Rightarrow> jsdate \<Rightarrow> nat option" where
  "getWorkingDaysInPeriod_loop count current end' =
     (if date_le current end'
      then getWorkingDaysInPeriod_loop
             (if getDay current \<noteq> Some 0 \<and> getDay current \<noteq> Some 6
              then count + 1 else count)
             (setDate current (num_plus (getDate current) 1)) end'
      else Some count)"

declare getWorkingDaysInPeriod_loop.simps [code]

definition getWorkingDaysInPeriod :: "jsdate \<Rightarrow> jsdate \<Rightarrow> nat option" where
  "getWorkingDaysInPeriod start end' = getWorkingDaysInPeriod_loop 0 start end'"

lemma setDate_next:
  "setDate (Some t) (num_plus (getDate (Some t)) k) = TimeClip (t + k * msPerDay)"
proof -
  have "MakeDay (YearFromTime t) (MonthFromTime t) (DateFromTime t + k) = Day t + k"
    by (simp add: MakeDay_add MakeDay_decompose)
  moreover have "MakeDate (Day t + k) (TimeWithinDay t) = t + k * msPerDay"
    using MakeDate_Day[of t] by (simp add: MakeDate_def algebra_simps)
  ultimately show ?thesis by (simp add: setDate_def num_plus_def getDate_def)
qed

lemma addDays_Some: "addDays (Some t) 1 = TimeClip (t + msPerDay)"
  using setDate_next[of t 1] by (simp add: addDays_def)

lemma addDays_None: "addDays None k = None"
  by (simp add: addDays_def setDate_def)

lemma date_le_simps [simp]:
  "date_le (Some x) (Some y) = (x \<le> y)" "date_le None b = False" "date_le a None = False"
  by (simp_all add: date_le_def split: option.splits)

lemma date_ge_simps [simp]:
  "date_ge (Some x) (Some y) = (y \<le> x)" "date_ge None b = False" "date_ge a None = False"
  by (simp_all add: date_ge_def split: option.splits)





definition isWorkingDay :: "int \<Rightarrow> bool" where
  "isWorkingDay t = (WeekDay t \<noteq> 0 \<and> WeekDay t \<noteq> 6)"

lemma isWeekend_Some: "isWeekend (Some t) = (\<not> isWorkingDay t)"
  by (auto simp: isWeekend_def getDay_def isWorkingDay_def)

lemma getDay_Some: "(getDay (Some t) \<noteq> Some 0 \<and> getDay (Some t) \<noteq> Some 6) = isWorkingDay t"
  by (simp add: getDay_def isWorkingDay_def)

lemma calculateWorkingDays_loop_stop:
  "\<not> date_le current endDate \<Longrightarrow> calculateWorkingDays_loop count current endDate = Some count"
  by (subst calculateWorkingDays_loop.simps) simp

lemma getWorkingDaysInPeriod_loop_stop:
  "\<not> date_le current end' \<Longrightarrow> getWorkingDaysInPeriod_loop count current end' = Some count"
  by (subst getWorkingDaysInPeriod_loop.simps) simp

lemma calculateWorkingDays_loop_step:
  "s \<le> e \<Longrightarrow> calculateWorkingDays_loop count (Some s) (Some e) =
     calculateWorkingDays_loop (if isWorkingDay s then count + 1 else count)
       (TimeClip (s + msPerDay)) (Some e)"
  by (subst calculateWorkingDays_loop.simps) (simp add: isWeekend_Some addDays_Some)

lemma getWorkingDaysInPeriod_loop_step:
  "s \<le> e \<Longrightarrow> getWorkingDaysInPeriod_loop count (Some s) (Some e) =
     getWorkingDaysInPeriod_loop (if isWorkingDay s then count + 1 else count)
       (TimeClip (s + msPerDay)) (Some e)"
  using setDate_next[of s 1]
  by (subst getWorkingDaysInPeriod_loop.simps) (simp add: getDay_Some)

lemma calculateWorkingDays_loop_terminates:
  "\<exists>n. calculateWorkingDays_loop count current endDate = Some n"
proof (cases "date_le current endDate")
  case False
  then show ?thesis by (simp add: calculateWorkingDays_loop_stop)
next
  case True
  then obtain s e where se: "current = Some s" "endDate = Some e"
    by (cases current; cases endDate) simp_all
  have "\<exists>n. calculateWorkingDays_loop count (Some s) (Some e) = Some n"
  proof (induction "nat (e - s + 1)" arbitrary: s count rule: less_induct)
    case less
    show ?case
    proof (cases "s \<le> e")
      case False
      then show ?thesis by (simp add: calculateWorkingDays_loop_stop)
    next
      case le: True
      show ?thesis
      proof (cases "TimeClip (s + msPerDay)")
        case None
        then show ?thesis
          by (simp add: calculateWorkingDays_loop_step[OF le] calculateWorkingDays_loop_stop)
      next
        case (Some u)
        then have u: "u = s + msPerDay" by (simp add: TimeClip_def split: if_splits)
        have "nat (e - u + 1) < nat (e - s + 1)" using le by (simp add: u msPerDay_def)
        from less[OF this] show ?thesis
          by (simp add: calculateWorkingDays_loop_step[OF le] Some)
      qed
    qed
  qed
  then show ?thesis by (simp add: se)
qed

lemma getWorkingDaysInPeriod_loop_terminates:
  "\<exists>n. getWorkingDaysInPeriod_loop count current end' = Some n"
proof (cases "date_le current end'")
  case False
  then show ?thesis by (simp add: getWorkingDaysInPeriod_loop_stop)
next
  case True
  then obtain s e where se: "current = Some s" "end' = Some e"
    by (cases current; cases end') simp_all
  have "\<exists>n. getWorkingDaysInPeriod_loop count (Some s) (Some e) = Some n"
  proof (induction "nat (e - s + 1)" arbitrary: s count rule: less_induct)
    case less
    show ?case
    proof (cases "s \<le> e")
      case False
      then show ?thesis by (simp add: getWorkingDaysInPeriod_loop_stop)
    next
      case le: True
      show ?thesis
      proof (cases "TimeClip (s + msPerDay)")
        case None
        then show ?thesis
          by (simp add: getWorkingDaysInPeriod_loop_step[OF le] getWorkingDaysInPeriod_loop_stop)
      next
        case (Some u)
        then have u: "u = s + msPerDay" by (simp add: TimeClip_def split: if_splits)
        have "nat (e - u + 1) < nat (e - s + 1)" using le by (simp add: u msPerDay_def)
        from less[OF this] show ?thesis
          by (simp add: getWorkingDaysInPeriod_loop_step[OF le] Some)
      qed
    qed
  qed
  then show ?thesis by (simp add: se)
qed







lemma calculateWorkingDays_returns:
  "\<exists>n. calculateWorkingDays startDate endDate = Some n"
  using calculateWorkingDays_loop_terminates[of 0 startDate endDate]
  by (simp add: calculateWorkingDays_def)

section \<open>Working-day counting\<close>

text \<open>
  Claim C10. \<open>calculateWorkingDays\<close> (\<open>Dashboard.tsx\<close>) and its sibling
  \<open>getWorkingDaysInPeriod\<close> (\<open>dashboard.tsx\<close>) are total: for every pair of \<open>Date\<close>
  values, valid or not, the day-by-day loop leaves after finitely many iterations and a
  count is returned. When the guard \<open>current <= endDate\<close> is false at entry, which
  covers \<open>start > end\<close>, the count returned is 0 and nothing is raised.
\<close>

theorem calculateWorkingDays_total:
  "(\<exists>n. calculateWorkingDays startDate endDate = Some n) \<and>
   (\<exists>n. getWorkingDaysInPeriod startDate endDate = Some n) \<and>
   (\<not> date_le startDate endDate \<longrightarrow>
      calculateWorkingDays startDate endDate = Some 0 \<and>
      getWorkingDaysInPeriod startDate endDate = Some 0)"
  using calculateWorkingDays_loop_terminates[of 0 startDate endDate]
    getWorkingDaysInPeriod_loop_terminates[of 0 startDate endDate]
  by (simp add: calculateWorkingDays_def getWorkingDaysInPeriod_def
      calculateWorkingDays_loop_stop getWorkingDaysInPeriod_loop_stop)

theorem calculateWorkingDays_total_witness:
  "\<not> date_le (Some 1710892800000) (Some 1708473600000) \<and>
   calculateWorkingDays (Some 1710892800000) (Some 1708473600000) = Some 0 \<and>
   getWorkingDaysInPeriod (Some 1710892800000) (Some 1708473600000) = Some 0"
  using calculateWorkingDays_total[of "Some 1710892800000" "Some 1708473600000"]
  by simp

text \<open>
  Claim C4 says that counting fails with \<open>InvalidRangeError\<close> when \<open>start > end\<close>.
  Neither function contains a \<open>throw\<close>: at the reversed range
  2024-03-20 .. 2024-02-21 both return the ordinary count 0.
\<close>

theorem calculateWorkingDays_reversed_counterexample:
  "(1708473600000::int) < 1710892800000 \<and>
   calculateWorkingDays (Some 1710892800000) (Some 1708473600000) = Some 0 \<and>
   getWorkingDaysInPeriod (Some 1710892800000) (Some 1708473600000) = Some 0"
  by (simp add: calculateWorkingDays_def getWorkingDaysInPeriod_def
      calculateWorkingDays_loop_stop getWorkingDaysInPeriod_loop_stop)

text \<open>
  Claim C4, as amended: for every range with \<open>start > end\<close> the functions return 0
  to the caller as an ordinary result; no error is raised or propagated.
\<close>

theorem calculateWorkingDays_reversed_zero:
  assumes "e < s"
  shows "calculateWorkingDays (Some s) (Some e) = Some 0 \<and>
         getWorkingDaysInPeriod (Some s) (Some e) = Some 0"
  using assms
  by (simp add: calculateWorkingDays_def getWorkingDaysInPeriod_def
      calculateWorkingDays_loop_stop getWorkingDaysInPeriod_loop_stop)

theorem calculateWorkingDays_reversed_zero_witness:
  "(0::int) < 86400000 \<and> calculateWorkingDays (Some 86400000) (Some 0) = Some 0 \<and>
   getWorkingDaysInPeriod (Some 86400000) (Some 0) = Some 0"
  using calculateWorkingDays_reversed_zero[of 0 86400000] by simp



section \<open>The reporting period\<close>

text \<open>
  \<open>getMonthPeriod\<close> of \<open>Dashboard.tsx\<close> returns the object \<open>{ startDate, endDate }\<close>, here a
  pair. \<open>dashboard.tsx\<close> computes the same two dates inline from \<open>today\<close>, as
  \<open>startOfPeriod\<close> and \<open>endOfPeriod\<close>.
\<close>

definition getMonthPeriod :: "jsdate \<Rightarrow> jsdate \<times> jsdate" where
  "getMonthPeriod d =
     (let currentMonth = getMonth d;
          currentYear = getFullYear d;
          startDate = newDate currentYear (num_plus currentMonth (- 1)) (Some 21);
          endDate = newDate currentYear currentMonth (Some 20)
      in (startDate, endDate))"



lemma MakeDay_prev_month:
  assumes m: "0 \<le> m" "m \<le> 11"
  shows "MakeDay y m 1 - 11 \<le> MakeDay y (m - 1) 21" "MakeDay y (m - 1) 21 \<le> MakeDay y m 1"
proof -
  have "MakeDay y m 1 - 11 \<le> MakeDay y (m - 1) 21 \<and> MakeDay y (m - 1) 21 \<le> MakeDay y m 1"
  proof (cases "m = 0")
    case True
    have "DayFromYear (y - 1 + 1) = DayFromYear (y - 1) + DaysInYear (y - 1)"
      by (rule DayFromYear_Suc)
    then show ?thesis
      using DaysInYear_cases[of "y - 1"]
      by (auto simp: True MakeDay_def Let_def DayOfMonthStart_def)
  next
    case False
    with m have d: "(m - 1) div 12 = 0" "(m - 1) mod 12 = m - 1" "m div 12 = 0" "m mod 12 = m"
      by simp_all
    from False m have "m = 1 \<or> m = 2 \<or> m = 3 \<or> m = 4 \<or> m = 5 \<or> m = 6 \<or> m = 7 \<or> m = 8
        \<or> m = 9 \<or> m = 10 \<or> m = 11" by arith
    then show ?thesis
      unfolding MakeDay_def Let_def d
      apply (elim disjE)
      apply (simp_all add: DayOfMonthStart_def)
      done
  qed
  then show "MakeDay y m 1 - 11 \<le> MakeDay y (m - 1) 21" "MakeDay y (m - 1) 21 \<le> MakeDay y m 1"
    by simp_all
qed

lemma Day_bounds: "Day t * msPerDay \<le> t" "t < (Day t + 1) * msPerDay"
  using MakeDate_Day[of t] TimeWithinDay_range[of t]
  by (simp_all add: MakeDate_def algebra_simps)

lemma TimeClip_midnight:
  assumes "\<bar>t\<bar> \<le> maxTime - 42 * msPerDay" "Day t - 41 \<le> d" "d \<le> Day t + 19"
  shows "TimeClip (MakeDate d 0) = Some (d * msPerDay)"
proof -
  have "(Day t - 41) * msPerDay \<le> d * msPerDay" "d * msPerDay \<le> (Day t + 19) * msPerDay"
    using assms(2,3) by (simp_all add: msPerDay_def)
  moreover have "- t \<le> maxTime - 42 * msPerDay" "t \<le> maxTime - 42 * msPerDay"
    using assms(1) by (simp_all add: abs_le_iff)
  ultimately have "d * msPerDay \<le> maxTime \<and> - (d * msPerDay) \<le> maxTime"
    using Day_bounds[of t] unfolding msPerDay_def by (simp add: algebra_simps)
  then have "\<bar>d * msPerDay\<bar> \<le> maxTime"
    by (simp add: abs_le_iff)
  then show ?thesis by (simp add: TimeClip_def MakeDate_def)
qed

lemma period_dates_values:
  assumes year: "YearFromTime t < 0 \<or> 99 < YearFromTime t"
  defines "s \<equiv> MakeDay (YearFromTime t) (MonthFromTime t - 1) 21 * msPerDay"
    and "e \<equiv> MakeDay (YearFromTime t) (MonthFromTime t) 20 * msPerDay"
  shows "fst (getMonthPeriod (Some t)) = TimeClip s"
    and "snd (getMonthPeriod (Some t)) = TimeClip e"
    and "DateFromTime s = 21"
    and "MonthFromTime s = (if MonthFromTime t = 0 then 11 else MonthFromTime t - 1)"
    and "YearFromTime s = (if MonthFromTime t = 0 then YearFromTime t - 1 else YearFromTime t)"
    and "DateFromTime e = 20"
    and "MonthFromTime e = MonthFromTime t"
    and "YearFromTime e = YearFromTime t"
proof -
  let ?y = "YearFromTime t" and ?m = "MonthFromTime t"
  have m: "0 \<le> ?m" "?m \<le> 11" by (rule MonthFromTime_range)+
  have yr: "(if 0 \<le> ?y \<and> ?y \<le> 99 then 1900 + ?y else ?y) = ?y"
    using year by auto
  show "fst (getMonthPeriod (Some t)) = TimeClip s"
    by (simp add: getMonthPeriod_def Let_def getMonth_def getFullYear_def num_plus_def
        newDate_def yr s_def MakeDate_def)
  show "snd (getMonthPeriod (Some t)) = TimeClip e"
    by (simp add: getMonthPeriod_def Let_def getMonth_def getFullYear_def num_plus_def
        newDate_def yr e_def MakeDate_def)
  have Ds: "Day s = MakeDay ?y (?m - 1) 21"
    using Day_MakeDate[of 0 "MakeDay ?y (?m - 1) 21"]
    by (simp add: s_def MakeDate_def msPerDay_def)
  have De: "Day e = MakeDay ?y ?m 20"
    using Day_MakeDate[of 0 "MakeDay ?y ?m 20"]
    by (simp add: e_def MakeDate_def msPerDay_def)
  have dm: "(?m - 1) div 12 = (if ?m = 0 then - 1 else 0)"
           "(?m - 1) mod 12 = (if ?m = 0 then 11 else ?m - 1)"
           "?m div 12 = 0" "?m mod 12 = ?m"
    using m by auto
  show "DateFromTime s = 21" by (rule civil_roundtrip(3)[OF _ _ Ds]) simp_all
  show "MonthFromTime s = (if ?m = 0 then 11 else ?m - 1)"
    using civil_roundtrip(2)[OF _ _ Ds] dm by simp
  show "YearFromTime s = (if ?m = 0 then ?y - 1 else ?y)"
    using civil_roundtrip(1)[OF _ _ Ds] dm by simp
  show "DateFromTime e = 20" by (rule civil_roundtrip(3)[OF _ _ De]) simp_all
  show "MonthFromTime e = ?m" using civil_roundtrip(2)[OF _ _ De] dm by simp
  show "YearFromTime e = ?y" using civil_roundtrip(1)[OF _ _ De] dm by simp
qed

lemma period_dates_in_range:
  assumes range: "\<bar>t\<bar> \<le> maxTime - 42 * msPerDay"
  shows "TimeClip (MakeDay (YearFromTime t) (MonthFromTime t - 1) 21 * msPerDay) \<noteq> None"
    and "TimeClip (MakeDay (YearFromTime t) (MonthFromTime t) 20 * msPerDay) \<noteq> None"
proof -
  let ?y = "YearFromTime t" and ?m = "MonthFromTime t"
  have m: "0 \<le> ?m" "?m \<le> 11" by (rule MonthFromTime_range)+
  have dec: "Day t = MakeDay ?y ?m 1 + (DateFromTime t - 1)"
    using MakeDay_decompose[of t] MakeDay_add[of ?y ?m 1 "DateFromTime t - 1"] by simp
  have e20: "MakeDay ?y ?m 20 = MakeDay ?y ?m 1 + 19"
    using MakeDay_add[of ?y ?m 1 19] by simp
  have sb: "Day t - 41 \<le> MakeDay ?y (?m - 1) 21" "MakeDay ?y (?m - 1) 21 \<le> Day t + 19"
    using dec DateFromTime_range[of t] MakeDay_prev_month[OF m, of ?y] by linarith+
  have eb: "Day t - 41 \<le> MakeDay ?y ?m 20" "MakeDay ?y ?m 20 \<le> Day t + 19"
    using dec DateFromTime_range[of t] e20 by linarith+
  show "TimeClip (MakeDay ?y (?m - 1) 21 * msPerDay) \<noteq> None"
    using TimeClip_midnight[OF range sb] by (simp add: MakeDate_def)
  show "TimeClip (MakeDay ?y ?m 20 * msPerDay) \<noteq> None"
    using TimeClip_midnight[OF range eb] by (simp add: MakeDate_def)
qed

lemma getMonthPeriod_valid:
  assumes "YearFromTime t < 0 \<or> 99 < YearFromTime t"
    and "\<bar>t\<bar> \<le> maxTime - 42 * msPerDay"
  shows "fst (getMonthPeriod (Some t)) \<noteq> None" "snd (getMonthPeriod (Some t)) \<noteq> None"
  using period_dates_values(1,2)[OF assms(1)] period_dates_in_range[OF assms(2)]
  by simp_all




section \<open>Time records and the period statistics\<close>

text \<open>
  A time record as the aggregation reads it (the records are untyped objects, \<open>any\<close>):
  \<^item> \<open>date\<close> is the \<open>Date\<close> that \<open>new Date(t.date)\<close> yields: \<open>None\<close> (Invalid Date) when
    the field is absent or not a date string, \<open>Some 0\<close> when it is \<open>null\<close>;
  \<^item> \<open>start_date\<close>, \<open>end_date\<close> are \<open>None\<close> when the field is falsy (absent, \<open>null\<close>,
    empty) and otherwise \<open>Some\<close> of the time value of the date string;
  \<^item> \<open>work_type\<close> is the category string;
  \<^item> \<open>total_hours\<close> is \<open>None\<close> when the field is falsy and otherwise \<open>Some\<close> of the
    number that \<open>parseFloat\<close> reads. The number type \<open>'h\<close> is left open: the sums are
    left folds with \<open>+\<close> from \<open>0\<close>, in list order, as \<open>reduce\<close> computes them.
\<close>

record 'h timesheet =
  date :: jsdate
  start_date :: "int option"
  end_date :: "int option"
  work_type :: string
  total_hours :: "'h option"

record 'h stats =
  workingDays :: nat
  filledDays :: nat
  regularHours :: 'h
  overtimeHours :: 'h
  weekendHours :: 'h
  vacationDays :: nat
  sickDays :: nat
  absentDays :: nat
  timesheets :: "'h timesheet list"

text \<open>
  \<open>parseHours\<close> is \<open>parseFloat(t.total_hours || 0)\<close>; \<open>sumHours\<close> is the
  \<open>reduce((sum, t) => sum + ..., 0)\<close> of the three hour totals; \<open>inPeriod\<close> is the
  callback of the first \<open>filter\<close>. \<open>calculateMonthStats\<close> takes the array it reads from
  the enclosing component as its first argument; its result is \<open>None\<close> only if the
  working-day loop did not return.
\<close>

definition parseHours :: "'h::zero timesheet \<Rightarrow> 'h" where
  "parseHours t = (case total_hours t of None \<Rightarrow> 0 | Some h \<Rightarrow> h)"

definition sumHours :: "'h::{zero,plus} timesheet list \<Rightarrow> 'h" where
  "sumHours ts = foldl (\<lambda>sum t. sum + parseHours t) 0 ts"

definition inPeriod :: "jsdate \<Rightarrow> jsdate \<Rightarrow> 'h timesheet \<Rightarrow> bool" where
  "inPeriod periodStart periodEnd t =
     (let entryDate = date t in date_ge entryDate periodStart \<and> date_le entryDate periodEnd)"

definition calculateMonthStats ::
  "'h::{zero,plus} timesheet list \<Rightarrow> jsdate \<Rightarrow> jsdate \<Rightarrow> 'h stats option" where
  "calculateMonthStats timesheetsArray periodStart periodEnd =
     (let periodsTimesheets = filter (inPeriod periodStart periodEnd) timesheetsArray in
      case calculateWorkingDays periodStart periodEnd of
        None \<Rightarrow> None
      | Some workingDays' \<Rightarrow>
          Some \<lparr> workingDays = workingDays',
                 filledDays = length periodsTimesheets,
                 regularHours =
                   sumHours (filter (\<lambda>t. work_type t = ''trabalho_normal'') periodsTimesheets),
                 overtimeHours =
                   sumHours (filter (\<lambda>t. work_type t = ''trabalho_reduzido'') periodsTimesheets),
                 weekendHours =
                   sumHours (filter (\<lambda>t. work_type t = ''trabalho_fim_semana'') periodsTimesheets),
                 vacationDays =
                   length (filter (\<lambda>t. work_type t = ''ferias'') periodsTimesheets),
                 sickDays = length (filter (\<lambda>t. work_type t = ''baixa'') periodsTimesheets),
                 absentDays = length (filter (\<lambda>t. work_type t = ''falta'') periodsTimesheets),
                 timesheets = periodsTimesheets \<rparr>)"

text \<open>
  The three records of the concrete scenario: regular work of 8 hours on 2024-03-01,
  weekend work of 4 hours on Saturday 2024-03-02, and a vacation with the range
  2024-02-25 .. 2024-02-27 and no \<open>date\<close>.
\<close>

definition scenario_records :: "rat timesheet list" where
  "scenario_records =
     [\<lparr> date = Some 1709251200000, start_date = None, end_date = None,
         work_type = ''trabalho_normal'', total_hours = Some 8 \<rparr>,
      \<lparr> date = Some 1709337600000, start_date = None, end_date = None,
         work_type = ''trabalho_fim_semana'', total_hours = Some 4 \<rparr>,
      \<lparr> date = None, start_date = Some 1708819200000, end_date = Some 1708992000000,
         work_type = ''ferias'', total_hours = None \<rparr>]"


lemma calculateMonthStats_returns:
  "\<exists>st. calculateMonthStats rs periodStart periodEnd = Some st"
  using calculateWorkingDays_returns[of periodStart periodEnd]
  by (auto simp: calculateMonthStats_def Let_def)

lemma inPeriod_no_date: "date r = None \<Longrightarrow> \<not> inPeriod periodStart periodEnd r"
  by (simp add: inPeriod_def)

text \<open>
  Claim C3 expects, for the reference date 2024-03-15 and the three records of the
  scenario, \<open>filledDays = 5\<close> and \<open>vacationDays = 3\<close>. \<open>calculateMonthStats\<close> counts
  records, and selects them by \<open>new Date(t.date)\<close> alone: the vacation record, which
  carries a range and no \<open>date\<close>, is not selected.
\<close>

theorem calculateMonthStats_scenario_counterexample:
  "map_option filledDays
     (calculateMonthStats scenario_records (fst (getMonthPeriod (Some 1710460800000)))
        (snd (getMonthPeriod (Some 1710460800000)))) \<noteq> Some 5 \<and>
   map_option vacationDays
     (calculateMonthStats scenario_records (fst (getMonthPeriod (Some 1710460800000)))
        (snd (getMonthPeriod (Some 1710460800000)))) \<noteq> Some 3"
  by code_simp

text \<open>
  Claim C3, as amended: for the reference date 2024-03-15 the period is
  2024-02-21 .. 2024-03-20, and for the three records of the scenario the aggregator
  returns \<open>filledDays = 2\<close>, \<open>regularHours = 8\<close>, \<open>weekendHours = 4\<close> and
  \<open>vacationDays = 0\<close> (with 21 working days and the two work records as the list).
\<close>

theorem calculateMonthStats_scenario:
  "getMonthPeriod (Some 1710460800000) = (Some 1708473600000, Some 1710892800000) \<and>
   (getFullYear (Some 1708473600000), getMonth (Some 1708473600000), getDate (Some 1708473600000))
     = (Some 2024, Some 1, Some 21) \<and>
   (getFullYear (Some 1710892800000), getMonth (Some 1710892800000), getDate (Some 1710892800000))
     = (Some 2024, Some 2, Some 20) \<and>
   calculateMonthStats scenario_records (Some 1708473600000) (Some 1710892800000) =
     Some \<lparr> workingDays = 21, filledDays = 2, regularHours = 8, overtimeHours = 0,
            weekendHours = 4, vacationDays = 0, sickDays = 0, absentDays = 0,
            timesheets = take 2 scenario_records \<rparr>"
  by code_simp



text \<open>
  Claim C7 says that a range-type record without \<open>startDate\<close>/\<open>endDate\<close> is skipped.
  \<open>calculateMonthStats\<close> never reads those two fields: a vacation record with a \<open>date\<close>
  in the period and no range is counted, in \<open>filledDays\<close> and in \<open>vacationDays\<close>.
\<close>

theorem calculateMonthStats_rangeless_vacation_counterexample:
  "calculateMonthStats
     [\<lparr> date = Some 1709251200000, start_date = None, end_date = None,
         work_type = ''ferias'', total_hours = (None :: rat option) \<rparr>]
     (Some 1708473600000) (Some 1710892800000) =
   Some \<lparr> workingDays = 21, filledDays = 1, regularHours = 0, overtimeHours = 0,
          weekendHours = 0, vacationDays = 1, sickDays = 0, absentDays = 0,
          timesheets =
            [\<lparr> date = Some 1709251200000, start_date = None, end_date = None,
                work_type = ''ferias'', total_hours = None \<rparr>] \<rparr> \<and>
   map_option filledDays
     (calculateMonthStats ([] :: rat timesheet list) (Some 1708473600000) (Some 1710892800000))
     = Some 0"
  by code_simp

text \<open>
  Claim C7, as amended: \<open>calculateMonthStats\<close> never fails, and a record of any type
  whose \<open>date\<close> is missing (the \<open>Date\<close> built from it is invalid) is skipped: the
  statistics, the filtered list included, are those of the list without it. The fields
  \<open>start_date\<close> and \<open>end_date\<close> have no influence on the statistics.
\<close>

theorem calculateMonthStats_skips_undated:
  fixes xs ys :: "'h::{zero,plus} timesheet list"
  assumes "date r = None"
  shows "(\<exists>st. calculateMonthStats (xs @ r # ys) periodStart periodEnd = Some st) \<and>
         calculateMonthStats (xs @ r # ys) periodStart periodEnd =
           calculateMonthStats (xs @ ys) periodStart periodEnd \<and>
         map_option (\<lambda>st. (filledDays st, regularHours st, overtimeHours st, weekendHours st,
                           vacationDays st, sickDays st, absentDays st))
           (calculateMonthStats (xs @ q\<lparr> start_date := sd, end_date := ed \<rparr> # ys)
              periodStart periodEnd) =
         map_option (\<lambda>st. (filledDays st, regularHours st, overtimeHours st, weekendHours st,
                           vacationDays st, sickDays st, absentDays st))
           (calculateMonthStats (xs @ q # ys) periodStart periodEnd)"
proof -
  obtain wd where wd: "calculateWorkingDays periodStart periodEnd = Some wd"
    using calculateWorkingDays_returns[of periodStart periodEnd] by auto
  have skip: "filter (inPeriod periodStart periodEnd) (xs @ r # ys) =
              filter (inPeriod periodStart periodEnd) (xs @ ys)"
    using inPeriod_no_date[OF assms] by simp
  have c1: "calculateMonthStats (xs @ r # ys) periodStart periodEnd =
            calculateMonthStats (xs @ ys) periodStart periodEnd"
    by (simp only: calculateMonthStats_def skip)
  have c3: "map_option (\<lambda>st. (filledDays st, regularHours st, overtimeHours st, weekendHours st,
                           vacationDays st, sickDays st, absentDays st))
           (calculateMonthStats (xs @ q\<lparr> start_date := sd, end_date := ed \<rparr> # ys)
              periodStart periodEnd) =
         map_option (\<lambda>st. (filledDays st, regularHours st, overtimeHours st, weekendHours st,
                           vacationDays st, sickDays st, absentDays st))
           (calculateMonthStats (xs @ q # ys) periodStart periodEnd)"
    by (simp add: calculateMonthStats_def Let_def wd inPeriod_def sumHours_def parseHours_def)
  show ?thesis
    using calculateMonthStats_returns[of "xs @ r # ys" periodStart periodEnd] c1 c3
    by blast
qed

theorem calculateMonthStats_skips_undated_witness:
  "date (scenario_records ! 2) = None \<and>
   calculateMonthStats (take 2 scenario_records @ scenario_records ! 2 # [])
     (Some 1708473600000) (Some 1710892800000) =
   calculateMonthStats (take 2 scenario_records @ []) (Some 1708473600000) (Some 1710892800000) \<and>
   map_option filledDays
     (calculateMonthStats (take 2 scenario_records @ scenario_records ! 2 # [])
        (Some 1708473600000) (Some 1710892800000)) = Some 2"
proof -
  have h: "date (scenario_records ! 2) = None" by (simp add: scenario_records_def)
  have v: "map_option filledDays
     (calculateMonthStats (take 2 scenario_records @ [])
        (Some 1708473600000) (Some 1710892800000)) = Some 2"
    by code_simp
  show ?thesis
    using calculateMonthStats_skips_undated[OF h, of "take 2 scenario_records" "[]"
        "Some 1708473600000" "Some 1710892800000"] h v
    by simp
qed

section \<open>The calendar's day-to-record map\<close>

text \<open>
  \<open>CalendarGrid\<close> builds \<open>timesheetsByDate\<close> with \<open>reduce\<close> over the records. The keys are
  the strings \<open>format(day, 'yyyy-MM-dd')\<close>; the model uses the day number \<open>Day t\<close> as the
  key, of which the string is a one-to-one rendering. \<open>format\<close> throws a \<open>RangeError\<close> on an
  Invalid Date.

  \<open>eachDayOfInterval\<close> is a library function whose behaviour on a reversed or invalid
  interval depends on the \<open>date-fns\<close> version, which the sources do not fix: version 2
  throws a \<open>RangeError\<close>, version 3 returns the days in reverse order (none for an invalid
  end point). The flag \<open>strict\<close> selects the former. For \<open>start \<le> end\<close> both return
  the start of every day from the day of \<open>start\<close> to the day of \<open>end\<close>.
\<close>

datatype error = RangeError

definition format_key :: "jsdate \<Rightarrow> error + int" where
  "format_key d = (case d of None \<Rightarrow> Inl RangeError | Some t \<Rightarrow> Inr (Day t))"

definition eachDayOfInterval :: "bool \<Rightarrow> jsdate \<Rightarrow> jsdate \<Rightarrow> error + jsdate list" where
  "eachDayOfInterval strict start end' =
     (case (start, end') of
        (Some s, Some e) \<Rightarrow>
          if s \<le> e then Inr (map (\<lambda>d. Some (MakeDate d 0)) [Day s..Day e])
          else if strict then Inl RangeError
          else Inr (rev (map (\<lambda>d. Some (MakeDate d 0)) [Day e..Day s]))
      | _ \<Rightarrow> if strict then Inl RangeError else Inr [])"

fun forEach_day :: "(int \<rightharpoonup> 'a) \<Rightarrow> 'a \<Rightarrow> jsdate list \<Rightarrow> error + (int \<rightharpoonup> 'a)" where
  "forEach_day acc timesheet [] = Inr acc"
| "forEach_day acc timesheet (day # days) =
     (case format_key day of
        Inl err \<Rightarrow> Inl err
      | Inr dateKey \<Rightarrow> forEach_day (acc(dateKey \<mapsto> timesheet)) timesheet days)"

definition timesheetsByDate_step ::
  "bool \<Rightarrow> (int \<rightharpoonup> 'h timesheet) \<Rightarrow> 'h timesheet \<Rightarrow> error + (int \<rightharpoonup> 'h timesheet)" where
  "timesheetsByDate_step strict acc timesheet =
     (if (work_type timesheet = ''ferias'' \<or> work_type timesheet = ''baixa'')
         \<and> start_date timesheet \<noteq> None \<and> end_date timesheet \<noteq> None
      then
        (let startDate = start_date timesheet; endDate = end_date timesheet in
         case eachDayOfInterval strict startDate endDate of
           Inl err \<Rightarrow> Inl err
         | Inr periodDays \<Rightarrow> forEach_day acc timesheet periodDays)
      else
        (case format_key (date timesheet) of
           Inl err \<Rightarrow> Inl err
         | Inr date' \<Rightarrow> Inr (acc(date' \<mapsto> timesheet))))"

fun timesheetsByDate_reduce ::
  "bool \<Rightarrow> (int \<rightharpoonup> 'h timesheet) \<Rightarrow> 'h timesheet list \<Rightarrow> error + (int \<rightharpoonup> 'h timesheet)" where
  "timesheetsByDate_reduce strict acc [] = Inr acc"
| "timesheetsByDate_reduce strict acc (timesheet # rest) =
     (case timesheetsByDate_step strict acc timesheet of
        Inl err \<Rightarrow> Inl err
      | Inr acc' \<Rightarrow> timesheetsByDate_reduce strict acc' rest)"

definition timesheetsByDate :: "bool \<Rightarrow> 'h timesheet list \<Rightarrow> error + (int \<rightharpoonup> 'h timesheet)" where
  "timesheetsByDate strict tss = timesheetsByDate_reduce strict Map.empty tss"







text \<open>
  The map-building step has no guard for a record without a usable \<open>date\<close>: outside the
  range branch \<open>format\<close> is applied to an Invalid Date and throws, and the exception ends
  the whole \<open>reduce\<close>.
\<close>

lemma timesheetsByDate_undated_throws:
  assumes "date t = None" and "start_date t = None \<or> end_date t = None"
  shows "timesheetsByDate strict [t] = Inl RangeError"
  using assms
  by (auto simp: timesheetsByDate_def timesheetsByDate_step_def format_key_def)






section \<open>Statistics over a store of \<open>Date\<close> objects\<close>

text \<open>
  \<open>Date\<close> objects are mutable and are passed by reference: \<open>periodStart\<close> and \<open>periodEnd\<close>
  are references that the caller keeps and passes again. To see that no call disturbs a
  later one, the functions are embedded once more with the \<open>Date\<close> objects in an explicit
  store: a reference is an index into the list of time values, \<open>new Date(v)\<close> appends a
  cell, and \<open>addDays\<close> returns a reference to a new object, as every \<open>date-fns\<close> function
  does. The records are plain values: no statement of the source assigns to a field of a
  record or to the array.
\<close>

type_synonym addr = nat
type_synonym store = "jsdate list"

definition new_Date :: "jsdate \<Rightarrow> store \<Rightarrow> addr \<times> store" where
  "new_Date v h = (length h, h @ [v])"

definition addDays_ref :: "addr \<Rightarrow> int \<Rightarrow> store \<Rightarrow> addr \<times> store" where
  "addDays_ref d amount h =
     (let (c, h1) = new_Date (h ! d) h in
      if amount = 0 then (c, h1)
      else (c, h1[c := setDate (h1 ! c) (num_plus (getDate (h1 ! c)) amount)]))"

partial_function (option) calculateWorkingDays_ref_loop ::
  "nat \<Rightarrow> addr \<Rightarrow> addr \<Rightarrow> store \<Rightarrow> (nat \<times> store) option" where
  "calculateWorkingDays_ref_loop count current endDate h =
     (if date_le (h ! current) (h ! endDate)
      then (case addDays_ref current 1 h of
              (current', h') \<Rightarrow>
                calculateWorkingDays_ref_loop
                  (if \<not> isWeekend (h ! current) then count + 1 else count) current' endDate h')
      else Some (count, h))"

declare calculateWorkingDays_ref_loop.simps [code]

definition calculateWorkingDays_ref :: "addr \<Rightarrow> addr \<Rightarrow> store \<Rightarrow> (nat \<times> store) option" where
  "calculateWorkingDays_ref startDate endDate h =
     (case new_Date (h ! startDate) h of
        (current, h1) \<Rightarrow> calculateWorkingDays_ref_loop 0 current endDate h1)"

fun filter_inPeriod_ref ::
  "addr \<Rightarrow> addr \<Rightarrow> 'h timesheet list \<Rightarrow> store \<Rightarrow> 'h timesheet list \<times> store" where
  "filter_inPeriod_ref periodStart periodEnd [] h = ([], h)"
| "filter_inPeriod_ref periodStart periodEnd (t # ts) h =
     (case new_Date (date t) h of
        (entryDate, h1) \<Rightarrow>
          (case filter_inPeriod_ref periodStart periodEnd ts h1 of
             (rest, h2) \<Rightarrow>
               (if date_ge (h1 ! entryDate) (h1 ! periodStart)
                   \<and> date_le (h1 ! entryDate) (h1 ! periodEnd)
                then t # rest else rest, h2)))"

definition calculateMonthStats_ref ::
  "'h::{zero,plus} timesheet list \<Rightarrow> addr \<Rightarrow> addr \<Rightarrow> store \<Rightarrow> ('h stats \<times> store) option" where
  "calculateMonthStats_ref timesheetsArray periodStart periodEnd h =
     (case filter_inPeriod_ref periodStart periodEnd timesheetsArray h of
        (periodsTimesheets, h1) \<Rightarrow>
          (case calculateWorkingDays_ref periodStart periodEnd h1 of
             None \<Rightarrow> None
           | Some (workingDays', h2) \<Rightarrow>
               Some (\<lparr> workingDays = workingDays',
                       filledDays = length periodsTimesheets,
                       regularHours =
                         sumHours (filter (\<lambda>t. work_type t = ''trabalho_normal'') periodsTimesheets),
                       overtimeHours =
                         sumHours (filter (\<lambda>t. work_type t = ''trabalho_reduzido'') periodsTimesheets),
                       weekendHours =
                         sumHours (filter (\<lambda>t. work_type t = ''trabalho_fim_semana'') periodsTimesheets),
                       vacationDays =
                         length (filter (\<lambda>t. work_type t = ''ferias'') periodsTimesheets),
                       sickDays = length (filter (\<lambda>t. work_type t = ''baixa'') periodsTimesheets),
                       absentDays = length (filter (\<lambda>t. work_type t = ''falta'') periodsTimesheets),
                       timesheets = periodsTimesheets \<rparr>, h2)))"

lemma addDays_ref_eq:
  "d < length h \<Longrightarrow> addDays_ref d amount h = (length h, h @ [addDays (h ! d) amount])"
  by (simp add: addDays_ref_def new_Date_def addDays_def nth_append)

lemma calculateWorkingDays_ref_loop_stop:
  "\<not> date_le (h ! current) (h ! endDate) \<Longrightarrow>
   calculateWorkingDays_ref_loop count current endDate h = Some (count, h)"
  by (subst calculateWorkingDays_ref_loop.simps) simp

lemma calculateWorkingDays_ref_loop_step:
  "date_le (h ! current) (h ! endDate) \<Longrightarrow> current < length h \<Longrightarrow>
   calculateWorkingDays_ref_loop count current endDate h =
     calculateWorkingDays_ref_loop (if \<not> isWeekend (h ! current) then count + 1 else count)
       (length h) endDate (h @ [addDays (h ! current) 1])"
  by (subst calculateWorkingDays_ref_loop.simps) (simp add: addDays_ref_eq)

lemma calculateWorkingDays_loop_unfold:
  "date_le current endDate \<Longrightarrow>
   calculateWorkingDays_loop count current endDate =
     calculateWorkingDays_loop (if \<not> isWeekend current then count + 1 else count)
       (addDays current 1) endDate"
  by (subst calculateWorkingDays_loop.simps) simp

lemma calculateWorkingDays_ref_loop_refines:
  assumes "current < length h" "endDate < length h"
  shows "\<exists>n h'. calculateWorkingDays_loop count (h ! current) (h ! endDate) = Some n \<and>
           calculateWorkingDays_ref_loop count current endDate h = Some (n, h') \<and>
           take (length h) h' = h"
proof (cases "date_le (h ! current) (h ! endDate)")
  case False
  then show ?thesis
    by (simp add: calculateWorkingDays_loop_stop calculateWorkingDays_ref_loop_stop)
next
  case True
  then obtain s e where se: "h ! current = Some s" "h ! endDate = Some e"
    by (cases "h ! current"; cases "h ! endDate") simp_all
  have "\<exists>n h'. calculateWorkingDays_loop count (Some s) (Some e) = Some n \<and>
           calculateWorkingDays_ref_loop count current endDate h = Some (n, h') \<and>
           take (length h) h' = h"
    using assms se
  proof (induction "nat (e - s + 1)" arbitrary: s count current h rule: less_induct)
    case less
    show ?case
    proof (cases "s \<le> e")
      case False
      then show ?thesis
        using less.prems
        by (simp add: calculateWorkingDays_loop_stop calculateWorkingDays_ref_loop_stop)
    next
      case le: True
      let ?h1 = "h @ [addDays (Some s) 1]"
      let ?c = "if isWorkingDay s then count + 1 else count"
      have pure: "calculateWorkingDays_loop count (Some s) (Some e) =
                  calculateWorkingDays_loop ?c (addDays (Some s) 1) (Some e)"
        using calculateWorkingDays_loop_unfold[of "Some s" "Some e" count] le
        by (simp add: isWeekend_Some)
      have ref: "calculateWorkingDays_ref_loop count current endDate h =
                 calculateWorkingDays_ref_loop ?c (length h) endDate ?h1"
        using calculateWorkingDays_ref_loop_step[of h current endDate count] le less.prems
        by (simp add: isWeekend_Some)
      have e1: "?h1 ! endDate = Some e" using less.prems by (simp add: nth_append)
      show ?thesis
      proof (cases "addDays (Some s) 1")
        case None
        then have "\<not> date_le (?h1 ! length h) (?h1 ! endDate)" by simp
        then have "calculateWorkingDays_ref_loop ?c (length h) endDate ?h1 = Some (?c, ?h1)"
          by (rule calculateWorkingDays_ref_loop_stop)
        then show ?thesis
          by (simp add: pure ref None calculateWorkingDays_loop_stop)
      next
        case (Some u)
        then have u: "u = s + msPerDay"
          by (simp add: addDays_Some TimeClip_def split: if_splits)
        have m: "nat (e - u + 1) < nat (e - s + 1)" using le by (simp add: u msPerDay_def)
        have "\<exists>n h'. calculateWorkingDays_loop ?c (Some u) (Some e) = Some n \<and>
              calculateWorkingDays_ref_loop ?c (length h) endDate ?h1 = Some (n, h') \<and>
              take (length ?h1) h' = ?h1"
          using less.prems(2) e1 by (intro less.hyps[OF m]) (simp_all add: Some)
        then obtain n h' where
          n: "calculateWorkingDays_loop ?c (Some u) (Some e) = Some n" and
          r: "calculateWorkingDays_ref_loop ?c (length h) endDate ?h1 = Some (n, h')" and
          t: "take (length ?h1) h' = ?h1" by blast
        have "take (length h) (take (length ?h1) h') = h" by (simp only: t) simp
        then have "take (length h) h' = h" by (simp add: min_def)
        with n r show ?thesis by (simp add: pure ref Some)
      qed
    qed
  qed
  then show ?thesis by (simp add: se)
qed


lemma take_prefix_nth:
  assumes "take (length h) h' = h" "a < length h"
  shows "a < length h'" "h' ! a = h ! a"
proof -
  have "length h \<le> length h'"
    using assms(1) by (metis length_take min.cobounded1)
  with assms(2) show "a < length h'" by simp
  show "h' ! a = h ! a"
    using assms by (metis nth_take)
qed

lemma calculateWorkingDays_ref_refines:
  assumes "startDate < length h" "endDate < length h"
  shows "\<exists>n h'. calculateWorkingDays (h ! startDate) (h ! endDate) = Some n \<and>
           calculateWorkingDays_ref startDate endDate h = Some (n, h') \<and>
           take (length h) h' = h"
proof -
  let ?h1 = "h @ [h ! startDate]"
  have "\<exists>n h'. calculateWorkingDays_loop 0 (?h1 ! length h) (?h1 ! endDate) = Some n \<and>
           calculateWorkingDays_ref_loop 0 (length h) endDate ?h1 = Some (n, h') \<and>
           take (length ?h1) h' = ?h1"
    using assms by (intro calculateWorkingDays_ref_loop_refines) simp_all
  then obtain n h' where
    n: "calculateWorkingDays_loop 0 (h ! startDate) (h ! endDate) = Some n" and
    r: "calculateWorkingDays_ref_loop 0 (length h) endDate ?h1 = Some (n, h')" and
    t: "take (length ?h1) h' = ?h1"
    using assms by (auto simp: nth_append)
  have "take (length h) (take (length ?h1) h') = h" by (simp only: t) simp
  then have "take (length h) h' = h" by (simp add: min_def)
  with n r show ?thesis
    by (simp add: calculateWorkingDays_def calculateWorkingDays_ref_def new_Date_def)
qed

lemma inPeriod_fun:
  "inPeriod a b = (\<lambda>t. date_ge (date t) a \<and> date_le (date t) b)"
  by (simp add: fun_eq_iff inPeriod_def Let_def)

lemma filter_inPeriod_ref_eq:
  "periodStart < length h \<Longrightarrow> periodEnd < length h \<Longrightarrow>
   filter_inPeriod_ref periodStart periodEnd ts h =
     (filter (inPeriod (h ! periodStart) (h ! periodEnd)) ts, h @ map date ts)"
proof (induction ts arbitrary: h)
  case Nil
  show ?case by simp
next
  case (Cons t ts)
  have "filter_inPeriod_ref periodStart periodEnd ts (h @ [date t]) =
     (filter (inPeriod ((h @ [date t]) ! periodStart) ((h @ [date t]) ! periodEnd)) ts,
      (h @ [date t]) @ map date ts)"
    using Cons.prems by (intro Cons.IH) simp_all
  then show ?case
    using Cons.prems by (simp add: new_Date_def nth_append inPeriod_fun)
qed

lemma calculateMonthStats_ref_refines:
  fixes rs :: "'h::{zero,plus} timesheet list"
  assumes "periodStart < length h" "periodEnd < length h"
  shows "\<exists>st h'. calculateMonthStats rs (h ! periodStart) (h ! periodEnd) = Some st \<and>
           calculateMonthStats_ref rs periodStart periodEnd h = Some (st, h') \<and>
           take (length h) h' = h"
proof -
  let ?h1 = "h @ map date rs"
  have b: "periodStart < length ?h1" "periodEnd < length ?h1" using assms by simp_all
  have v: "?h1 ! periodStart = h ! periodStart" "?h1 ! periodEnd = h ! periodEnd"
    using assms by (simp_all add: nth_append)
  obtain n h' where
    n: "calculateWorkingDays (h ! periodStart) (h ! periodEnd) = Some n" and
    r: "calculateWorkingDays_ref periodStart periodEnd ?h1 = Some (n, h')" and
    t: "take (length ?h1) h' = ?h1"
    using calculateWorkingDays_ref_refines[OF b] v by auto
  have "take (length h) (take (length ?h1) h') = h" by (simp only: t) simp
  then have "take (length h) h' = h" by (simp add: min_def)
  then show ?thesis
    using n r
    by (simp add: calculateMonthStats_def calculateMonthStats_ref_def
        filter_inPeriod_ref_eq[OF assms] Let_def)
qed

text \<open>
  Claim C9. The statistics are a function of the records and of the time values of the
  two period dates alone. A call changes no \<open>Date\<close> object that existed before it (it
  only creates new ones), so a second call with the same records and the same two
  references, made in the store the first call left behind, returns identical
  statistics: the same working days, filled days, hour sums, day counts and filtered
  list.
\<close>

theorem calculateMonthStats_deterministic:
  fixes rs :: "'h::{zero,plus} timesheet list"
  assumes "periodStart < length h" and "periodEnd < length h"
  shows "\<exists>st h1 h2.
           calculateMonthStats_ref rs periodStart periodEnd h = Some (st, h1) \<and>
           take (length h) h1 = h \<and>
           calculateMonthStats_ref rs periodStart periodEnd h1 = Some (st, h2) \<and>
           calculateMonthStats rs (h ! periodStart) (h ! periodEnd) = Some st"
proof -
  obtain st h1 where
    p: "calculateMonthStats rs (h ! periodStart) (h ! periodEnd) = Some st" and
    r1: "calculateMonthStats_ref rs periodStart periodEnd h = Some (st, h1)" and
    t: "take (length h) h1 = h"
    using calculateMonthStats_ref_refines[OF assms, of rs] by blast
  note b = take_prefix_nth[OF t assms(1)] take_prefix_nth[OF t assms(2)]
  obtain st' h2 where
    p': "calculateMonthStats rs (h1 ! periodStart) (h1 ! periodEnd) = Some st'" and
    r2: "calculateMonthStats_ref rs periodStart periodEnd h1 = Some (st', h2)"
    using calculateMonthStats_ref_refines[OF b(1) b(3), of rs] by blast
  from p p' b have "st' = st" by simp
  with p r1 r2 t show ?thesis by blast
qed

theorem calculateMonthStats_deterministic_witness:
  "(0::nat) < length [Some 1708473600000, Some (1710892800000::int)] \<and>
   (1::nat) < length [Some 1708473600000, Some (1710892800000::int)] \<and>
   (\<exists>st h1 h2.
      calculateMonthStats_ref scenario_records 0 1 [Some 1708473600000, Some 1710892800000]
        = Some (st, h1) \<and>
      take 2 h1 = [Some 1708473600000, Some 1710892800000] \<and>
      calculateMonthStats_ref scenario_records 0 1 h1 = Some (st, h2) \<and>
      filledDays st = 2 \<and> workingDays st = 21 \<and> regularHours st = 8 \<and> weekendHours st = 4)"
proof -
  let ?h = "[Some 1708473600000, Some (1710892800000::int)]"
  have h0: "0 < length ?h" and h1: "1 < length ?h" by simp_all
  have v: "calculateMonthStats scenario_records (?h ! 0) (?h ! 1) =
     Some \<lparr> workingDays = 21, filledDays = 2, regularHours = 8, overtimeHours = 0,
            weekendHours = 4, vacationDays = 0, sickDays = 0, absentDays = 0,
            timesheets = take 2 scenario_records \<rparr>"
    by code_simp
  obtain st g1 g2 where
    a: "calculateMonthStats_ref scenario_records 0 1 ?h = Some (st, g1)" and
    b: "take (length ?h) g1 = ?h" and
    c: "calculateMonthStats_ref scenario_records 0 1 g1 = Some (st, g2)" and
    d: "calculateMonthStats scenario_records (?h ! 0) (?h ! 1) = Some st"
    using calculateMonthStats_deterministic[OF h0 h1, of scenario_records] by blast
  from d v have st: "filledDays st = 2" "workingDays st = 21" "regularHours st = 8"
    "weekendHours st = 4" by auto
  from b have b': "take 2 g1 = ?h" by (simp add: numeral_2_eq_2)
  from a b' c st h0 h1 show ?thesis by blast
qed

end
